theory Spec2Isabelle
  imports Main "HOL-Library.Word"
begin

section \<open>Organization membership service\<close>

text \<open>
  A shallow embedding of \<^verbatim>\<open>src/organization/organization.service.ts\<close>.
  The service is a class whose methods sequence calls to three collaborators: a relational
  store reached through Prisma, a Redis key-value store and a mailer.  Each method becomes a
  function from the state of the three collaborators to a result and the state afterwards;
  a thrown exception is the left injection of the result, and the state that comes with it
  is the one reached when the exception was thrown.
\<close>

subsection \<open>JavaScript values\<close>

text \<open>
  The values that \<^verbatim>\<open>JSON.parse\<close> can return, with \<^verbatim>\<open>undefined\<close> added for
  the result of reading a property that is not there.  Numbers are kept to the integers: the
  service never writes one.
\<close>

datatype jsval =
    Undefined
  | Null
  | Bool bool
  | Num int
  | Str string
  | Arr "jsval list"
  | Obj "(string \<times> jsval) list"

text \<open>Truthiness as \<^verbatim>\<open>!v\<close> and \<^verbatim>\<open>if (v)\<close> see it.\<close>

fun truthy :: "jsval \<Rightarrow> bool" where
  "truthy Undefined = False"
| "truthy Null = False"
| "truthy (Bool b) = b"
| "truthy (Num n) = (n \<noteq> 0)"
| "truthy (Str s) = (s \<noteq> [])"
| "truthy (Arr xs) = True"
| "truthy (Obj kvs) = True"

text \<open>
  Reading \<^verbatim>\<open>v.k\<close> for one of the keys the service reads (\<^verbatim>\<open>code\<close>,
  \<^verbatim>\<open>name\<close>, \<^verbatim>\<open>newuser\<close>, \<^verbatim>\<open>roles\<close>): an object gives the value stored
  under the key, every other value that can be read from gives \<^verbatim>\<open>undefined\<close>.  Reading from
  \<^verbatim>\<open>null\<close> or \<^verbatim>\<open>undefined\<close> throws; the callers below test for those first.
\<close>

fun js_get :: "jsval \<Rightarrow> string \<Rightarrow> jsval" where
  "js_get (Obj kvs) k = (case map_of kvs k of None \<Rightarrow> Undefined | Some v \<Rightarrow> v)"
| "js_get v k = Undefined"

subsection \<open>Errors\<close>

text \<open>
  \<open>Error m\<close> is \<^verbatim>\<open>new Error(m)\<close>; \<open>TypeError\<close> and \<open>SyntaxError\<close> are the
  exceptions of the language itself; \<open>PrismaError c\<close> is a request the relational store
  rejects, named by Prisma's code where it has one: \<^verbatim>\<open>P2002\<close> a unique constraint,
  \<^verbatim>\<open>P2003\<close> a foreign key, \<^verbatim>\<open>P2025\<close> a record that the request depends on and
  that is not there.
\<close>

datatype error =
    Error string
  | TypeError string
  | SyntaxError
  | PrismaError string

subsection \<open>The one-time code\<close>

text \<open>
  \<^verbatim>\<open>otp.generate(length, options)\<close> of the otp-generator package concatenates the
  alphabets that the options switch on, in the order digits, lower case, upper case, special
  characters, and draws \<open>length\<close> characters from the result, each at a random index.  The
  random indices are the parameter \<open>draw\<close>: the \<open>i\<close>-th character of the code is the one
  at index \<open>draw i\<close>, reduced into the range of the alphabet.  Releases of the package
  that draw again when the first character would be 0 are covered: \<open>draw\<close> then lists the
  draws that were kept.  The service calls the generator with a non-empty alphabet only.
\<close>

record otp_options =
  lowerCaseAlphabets :: bool
  specialChars :: bool
  digits :: bool
  upperCaseAlphabets :: bool

definition otp_digits :: string where
  "otp_digits = ''0123456789''"

definition otp_lowerCaseAlphabets :: string where
  "otp_lowerCaseAlphabets = ''abcdefghijklmnopqrstuvwxyz''"

definition otp_upperCaseAlphabets :: string where
  "otp_upperCaseAlphabets = ''ABCDEFGHIJKLMNOPQRSTUVWXYZ''"

definition otp_specialChars :: string where
  "otp_specialChars = ''#!&@''"

definition allowsChars :: "otp_options \<Rightarrow> string" where
  "allowsChars options =
     (if digits options then otp_digits else []) @
     (if lowerCaseAlphabets options then otp_lowerCaseAlphabets else []) @
     (if upperCaseAlphabets options then otp_upperCaseAlphabets else []) @
     (if specialChars options then otp_specialChars else [])"

definition otp_generate :: "(nat \<Rightarrow> nat) \<Rightarrow> nat \<Rightarrow> otp_options \<Rightarrow> string" where
  "otp_generate draw n options =
     map (\<lambda>i. allowsChars options ! (draw i mod length (allowsChars options))) [0..<n]"

text \<open>The call of \<^verbatim>\<open>inviteUser\<close>, line 71.\<close>

definition invite_code :: "(nat \<Rightarrow> nat) \<Rightarrow> string" where
  "invite_code draw =
     otp_generate draw 6
       \<lparr>lowerCaseAlphabets = False, specialChars = False, digits = True,
        upperCaseAlphabets = True\<rparr>"

subsection \<open>Random bytes in hexadecimal\<close>

text \<open>
  \<^verbatim>\<open>randomBytes(n)\<close> is a buffer of \<open>n\<close> bytes from the random source \<open>rnd\<close>;
  \<^verbatim>\<open>toString("hex")\<close> writes each byte as two lower-case hexadecimal digits.
\<close>

definition randomBytes :: "(nat \<Rightarrow> 8 word) \<Rightarrow> nat \<Rightarrow> 8 word list" where
  "randomBytes rnd n = map rnd [0..<n]"

definition hex_digit :: "nat \<Rightarrow> char" where
  "hex_digit d = ''0123456789abcdef'' ! d"

definition hex_byte :: "8 word \<Rightarrow> string" where
  "hex_byte b = [hex_digit (unat b div 16), hex_digit (unat b mod 16)]"

definition toString_hex :: "8 word list \<Rightarrow> string" where
  "toString_hex bs = concat (map hex_byte bs)"

subsection \<open>The collaborators' state\<close>

text \<open>
  The rows of the four Prisma models the service uses, with the columns it reads and writes.
  \<open>authData\<close> and \<open>profileData\<close> are JSON columns.
\<close>

record user =
  id :: string
  email :: string
  authData :: jsval
  profileData :: jsval

record organization =
  id :: string
  name :: string
  identifier' :: string

record organizationUser =
  id :: string
  userID :: string
  organizationID :: string
  isAdmin :: bool

record role =
  name :: string
  organizationUserID :: string

text \<open>A message handed to \<^verbatim>\<open>sendEmail(to, subject, html)\<close>.\<close>

record mail =
  to :: string
  subject :: string
  html :: string

text \<open>
  The text stored under a Redis key is represented by what \<^verbatim>\<open>JSON.parse\<close> makes of it:
  \<open>Json v\<close> is a text that parses to \<open>v\<close>, \<open>NotJson\<close> a text that does not parse.
  \<^verbatim>\<open>JSON.stringify(v)\<close> writes a text that parses back to \<open>v\<close>.  An entry carries
  the expiry it was written with (\<^verbatim>\<open>EX\<close>, in seconds); the passing of time is not
  part of the model.
\<close>

datatype payload = NotJson | Json jsval

record world =
  users :: "user list"
  organizations :: "organization list"
  organizationUsers :: "organizationUser list"
  roleLabels :: "role list"
  redis :: "string \<rightharpoonup> payload \<times> nat"
  outbox :: "mail list"

text \<open>The configuration module \<^verbatim>\<open>src/keys\<close>, as far as the service reads it.\<close>

record keys =
  REDIRECT_URL :: string
  ORG_NAME :: string
  CODE_EXPIRY :: nat

definition JSON_stringify :: "jsval \<Rightarrow> payload" where
  "JSON_stringify v = Json v"

text \<open>
  \<^verbatim>\<open>JSON.parse\<close> applied to what \<^verbatim>\<open>client.get\<close> returned.  A key that is not
  there gives \<^verbatim>\<open>null\<close>, which \<^verbatim>\<open>JSON.parse\<close> converts to the text
  \<^verbatim>\<open>null\<close> and parses to \<^verbatim>\<open>null\<close>; a text that is not JSON makes it throw.
\<close>

fun JSON_parse :: "payload option \<Rightarrow> error + jsval" where
  "JSON_parse None = Inr Null"
| "JSON_parse (Some NotJson) = Inl SyntaxError"
| "JSON_parse (Some (Json v)) = Inr v"

definition redis_get :: "world \<Rightarrow> string \<Rightarrow> payload option" where
  "redis_get s k = map_option fst (redis s k)"

definition redis_set :: "string \<Rightarrow> payload \<Rightarrow> nat \<Rightarrow> world \<Rightarrow> world" where
  "redis_set k v ex s = s\<lparr>redis := (redis s)(k \<mapsto> (v, ex))\<rparr>"

definition redis_del :: "string \<Rightarrow> world \<Rightarrow> world" where
  "redis_del k s = s\<lparr>redis := (redis s)(k := None)\<rparr>"

definition sendEmail :: "string \<Rightarrow> string \<Rightarrow> string \<Rightarrow> world \<Rightarrow> world" where
  "sendEmail t sub body s = s\<lparr>outbox := outbox s @ [\<lparr>to = t, subject = sub, html = body\<rparr>]\<rparr>"

text \<open>
  Modelled from the spec: the schema of the relational store is not among the sources.  The
  spec gives every row a unique \<open>id\<close>; the store assigns it when the row is created.  The
  generator below returns an identifier that no row of the table has: one character longer
  than the longest in use.
\<close>

definition fresh_id :: "string list \<Rightarrow> string" where
  "fresh_id used = replicate (Suc (foldr (\<lambda>i. max (length i)) used 0)) (CHR ''0'')"

subsection \<open>Prisma queries\<close>

definition user_findUnique_email :: "world \<Rightarrow> string \<Rightarrow> user option" where
  "user_findUnique_email s e = find (\<lambda>u. user.email u = e) (users s)"

definition user_findUnique_id :: "world \<Rightarrow> string \<Rightarrow> user option" where
  "user_findUnique_id s i = find (\<lambda>u. user.id u = i) (users s)"

definition organization_findUnique :: "world \<Rightarrow> string \<Rightarrow> organization option" where
  "organization_findUnique s i = find (\<lambda>g. organization.id g = i) (organizations s)"

definition organizationUser_findFirst :: "world \<Rightarrow> string \<Rightarrow> string \<Rightarrow> organizationUser option" where
  "organizationUser_findFirst s oid uid =
     find (\<lambda>m. organizationID m = oid \<and> userID m = uid) (organizationUsers s)"

definition organizationUser_findMany_admins :: "world \<Rightarrow> string \<Rightarrow> organizationUser list" where
  "organizationUser_findMany_admins s oid =
     filter (\<lambda>m. isAdmin m \<and> organizationID m = oid) (organizationUsers s)"

text \<open>
  \<^verbatim>\<open>user.create\<close>: \<open>email\<close> is a unique column (the service looks users up by it with
  \<^verbatim>\<open>findUnique\<close>), so a second row with the same email is rejected.
\<close>

definition user_create :: "string \<Rightarrow> jsval \<Rightarrow> jsval \<Rightarrow> world \<Rightarrow> (error + user) \<times> world" where
  "user_create e a p s =
     (if user_findUnique_email s e \<noteq> None then (Inl (PrismaError ''P2002''), s)
      else
        let u = \<lparr>user.id = fresh_id (map user.id (users s)), email = e, authData = a,
                 profileData = p\<rparr>
        in (Inr u, s\<lparr>users := users s @ [u]\<rparr>))"

text \<open>
  \<^verbatim>\<open>organizationUser.create\<close> with the two foreign keys given as plain columns and the
  role labels created with it (\<^verbatim>\<open>createMany\<close>).  Both keys must point at a row.
\<close>

definition organizationUser_create ::
  "string \<Rightarrow> string \<Rightarrow> bool \<Rightarrow> string list \<Rightarrow> world \<Rightarrow> (error + organizationUser) \<times> world" where
  "organizationUser_create uid oid adm names s =
     (if user_findUnique_id s uid = None \<or> organization_findUnique s oid = None
      then (Inl (PrismaError ''P2003''), s)
      else
        let m = \<lparr>organizationUser.id = fresh_id (map organizationUser.id (organizationUsers s)),
                 userID = uid, organizationID = oid, isAdmin = adm\<rparr>
        in (Inr m,
            s\<lparr>organizationUsers := organizationUsers s @ [m],
              roleLabels := roleLabels s @
                map (\<lambda>r. \<lparr>role.name = r, organizationUserID = organizationUser.id m\<rparr>) names\<rparr>))"

text \<open>
  Modelled from the spec: the schema's referential actions are not among the sources.  The
  spec has the deletion of a membership cascade to the role labels it owns.
\<close>

definition organizationUser_delete :: "string \<Rightarrow> world \<Rightarrow> world" where
  "organizationUser_delete mid s =
     s\<lparr>organizationUsers := filter (\<lambda>m. organizationUser.id m \<noteq> mid) (organizationUsers s),
       roleLabels := filter (\<lambda>r. organizationUserID r \<noteq> mid) (roleLabels s)\<rparr>"

text \<open>
  Modelled from the spec: the schema's referential actions are not among the sources.  The
  spec has the deletion of an organization cascade to its memberships and to their role
  labels.
\<close>

definition organization_delete :: "string \<Rightarrow> world \<Rightarrow> world" where
  "organization_delete oid s =
     (let gone = map organizationUser.id
                   (filter (\<lambda>m. organizationID m = oid) (organizationUsers s))
      in s\<lparr>organizations := filter (\<lambda>g. organization.id g \<noteq> oid) (organizations s),
           organizationUsers := filter (\<lambda>m. organizationID m \<noteq> oid) (organizationUsers s),
           roleLabels := filter (\<lambda>r. organizationUserID r \<notin> set gone) (roleLabels s)\<rparr>)"

subsection \<open>The service\<close>

text \<open>
  Parameters that share a name with a column are primed.  Beside the arguments of the
  source, \<open>inviteUser\<close> takes the configuration and the draws of the code generator,
  \<open>createOrganization\<close> the random source of \<^verbatim>\<open>randomBytes\<close>, and
  \<open>acceptInvitation\<close> the hash function \<open>h\<close> that \<^verbatim>\<open>bcrypt.hash(_, 10)\<close>
  computes once its salt is drawn.
\<close>

definition addUser ::
  "string \<Rightarrow> string \<Rightarrow> string \<Rightarrow> string \<Rightarrow> string list \<Rightarrow> world
     \<Rightarrow> (error + organizationUser) \<times> world" where
  "addUser email' name' password organizationID' roles s =
     (if user_findUnique_email s email' \<noteq> None then (Inl (PrismaError ''P2002''), s)
      else if organization_findUnique s organizationID' = None
      then (Inl (PrismaError ''P2025''), s)
      else
        let u = \<lparr>user.id = fresh_id (map user.id (users s)), email = email',
                 authData = Obj [(''password'', Str password)],
                 profileData = Obj [(''firstname'', Str name')]\<rparr>;
            orguser =
              \<lparr>organizationUser.id = fresh_id (map organizationUser.id (organizationUsers s)),
               userID = user.id u, organizationID = organizationID', isAdmin = False\<rparr>
        in (Inr orguser,
            s\<lparr>users := users s @ [u],
              organizationUsers := organizationUsers s @ [orguser],
              roleLabels := roleLabels s @
                map (\<lambda>r. \<lparr>role.name = r, organizationUserID = organizationUser.id orguser\<rparr>)
                  roles\<rparr>))"

definition invite_key :: "string \<Rightarrow> string \<Rightarrow> string" where
  "invite_key organizationID' email' = ''invite:'' @ organizationID' @ ''-'' @ email'"

definition js_bool :: "bool \<Rightarrow> string" where
  "js_bool b = (if b then ''true'' else ''false'')"

definition invite_subject :: "string \<Rightarrow> string" where
  "invite_subject orgname = ''Invitation: You've been invited to join '' @ orgname"

definition invite_body ::
  "keys \<Rightarrow> string \<Rightarrow> string \<Rightarrow> string \<Rightarrow> string \<Rightarrow> bool \<Rightarrow> string \<Rightarrow> string" where
  \<open>invite_body ks email' name' orgname organizationID' newUser code =
     (let nl = CHR 0x0A # replicate 12 (CHR '' '') in
      nl @ ''<p>Hi '' @ name' @ '',</p>'' @
      nl @ ''<p>You've been invited to join '' @ orgname @ ''</p>'' @
      nl @ ''<p>If you want to join please press the link <a href="'' @ REDIRECT_URL ks @
        ''/join?user='' @ email' @ ''&org='' @ organizationID' @ ''&newuser='' @
        js_bool newUser @ ''&code='' @ code @ ''&name='' @ name' @ ''">here</a></p>'' @
      nl @ ''<p>Thanks,</p>'' @
      nl @ ''<p>'' @ ORG_NAME ks @ ''.</p>'' @
      CHR 0x0A # replicate 8 (CHR '' ''))\<close>

definition invite_payload :: "string \<Rightarrow> string \<Rightarrow> bool \<Rightarrow> string list \<Rightarrow> jsval" where
  "invite_payload code name' newUser roles =
     Obj [(''code'', Str code), (''name'', Str name'), (''newuser'', Bool newUser),
          (''roles'', Arr (map Str roles))]"

definition inviteUser ::
  "keys \<Rightarrow> (nat \<Rightarrow> nat) \<Rightarrow> string \<Rightarrow> string \<Rightarrow> string \<Rightarrow> string list \<Rightarrow> world
     \<Rightarrow> (error + bool) \<times> world" where
  "inviteUser ks draw email' name' organizationID' roles s =
     (let user = user_findUnique_email s email' in
      case organization_findUnique s organizationID' of
        None \<Rightarrow> (Inl (Error ''no organization exists''), s)
      | Some organization \<Rightarrow>
          if (case user of
                None \<Rightarrow> False
              | Some u \<Rightarrow>
                  organizationUser_findFirst s (organization.id organization) (user.id u)
                    \<noteq> None)
          then (Inl (Error ''already part of organization''), s)
          else
            let newUser = (user = None);
                code = invite_code draw;
                s1 = sendEmail email' (invite_subject (organization.name organization))
                       (invite_body ks email' name' (organization.name organization)
                          organizationID' newUser code) s;
                s2 = redis_set (invite_key organizationID' email')
                       (JSON_stringify (invite_payload code name' newUser roles))
                       (CODE_EXPIRY ks) s1
            in (Inr True, s2))"

text \<open>
  \<^verbatim>\<open>bcrypt.hash(password, 10)\<close>: the package rejects a password that is
  \<^verbatim>\<open>null\<close>.
\<close>

definition bcrypt_hash :: "(string \<Rightarrow> string) \<Rightarrow> string option \<Rightarrow> error + string" where
  "bcrypt_hash h password =
     (case password of
        None \<Rightarrow> Inl (Error ''data and salt arguments required'')
      | Some p \<Rightarrow> Inr (h p))"

text \<open>
  \<^verbatim>\<open>invite.roles.map((role) => ({ name: role }))\<close>, and the store's check that every
  name is a string.  \<^verbatim>\<open>map\<close> exists on arrays only.
\<close>

fun js_str :: "jsval \<Rightarrow> string option" where
  "js_str (Str x) = Some x"
| "js_str v = None"

definition role_names :: "jsval \<Rightarrow> error + string list" where
  "role_names v =
     (case v of
        Arr xs \<Rightarrow>
          if list_all (\<lambda>x. js_str x \<noteq> None) xs then Inr (map (\<lambda>x. the (js_str x)) xs)
          else Inl (PrismaError ''validation'')
      | _ \<Rightarrow> Inl (TypeError ''map''))"

text \<open>The branch of \<open>acceptInvitation\<close> for a new user, lines 99 to 116.\<close>

definition accept_new_user ::
  "(string \<Rightarrow> string) \<Rightarrow> string \<Rightarrow> jsval \<Rightarrow> string option \<Rightarrow> world
     \<Rightarrow> (error + user option) \<times> world" where
  "accept_new_user h email' invite_name password s =
     (case bcrypt_hash h password of
        Inl e \<Rightarrow> (Inl e, s)
      | Inr hashpass \<Rightarrow>
          (case user_create email' (Obj [(''password'', Str hashpass)])
                  (Obj [(''firstname'', invite_name), (''lastname'', Str []),
                        (''status'', Str ''verified'')]) s of
             (Inl e, s1) \<Rightarrow> (Inl e, s1)
           | (Inr u, s1) \<Rightarrow> (Inr (Some u), s1)))"

text \<open>
  Lines 93 to 133: what \<open>acceptInvitation\<close> does once the code is verified.  The two
  tests of \<^verbatim>\<open>invite.newuser\<close> (lines 95 and 99) are the two branches of one
  conditional.  \<^verbatim>\<open>user.id\<close> on line 120 throws a \<^verbatim>\<open>TypeError\<close> when
  \<^verbatim>\<open>user\<close> is \<^verbatim>\<open>null\<close>; the argument of \<^verbatim>\<open>organizationUser.create\<close> is
  built, in the order of its fields, before the store sees it.
\<close>

definition accept_verified ::
  "(string \<Rightarrow> string) \<Rightarrow> string \<Rightarrow> string \<Rightarrow> jsval \<Rightarrow> string option \<Rightarrow> world
     \<Rightarrow> (error + bool) \<times> world" where
  "accept_verified h email' organizationID' invite password s =
     (case (if \<not> truthy (js_get invite ''newuser'')
            then (Inr (user_findUnique_email s email'), s)
            else accept_new_user h email' (js_get invite ''name'') password s) of
        (Inl e, s1) \<Rightarrow> (Inl e, s1)
      | (Inr None, s1) \<Rightarrow> (Inl (TypeError ''id''), s1)
      | (Inr (Some user), s1) \<Rightarrow>
          (case role_names (js_get invite ''roles'') of
             Inl e \<Rightarrow> (Inl e, s1)
           | Inr names \<Rightarrow>
               (case organizationUser_create (user.id user) organizationID' False names s1 of
                  (Inl e, s2) \<Rightarrow> (Inl e, s2)
                | (Inr m, s2) \<Rightarrow>
                    (Inr True, redis_del (invite_key organizationID' email') s2))))"

text \<open>Lines 85 to 91, and then the rest.\<close>

definition acceptInvitation ::
  "(string \<Rightarrow> string) \<Rightarrow> string \<Rightarrow> string \<Rightarrow> string \<Rightarrow> string option \<Rightarrow> world
     \<Rightarrow> (error + bool) \<times> world" where
  "acceptInvitation h email' organizationID' code password s =
     (case JSON_parse (redis_get s (invite_key organizationID' email')) of
        Inl e \<Rightarrow> (Inl e, s)
      | Inr invite \<Rightarrow>
          if \<not> truthy invite \<or> \<not> truthy (js_get invite ''code'')
               \<or> js_get invite ''code'' \<noteq> Str code
          then (Inl (Error ''unable to verify code''), s)
          else accept_verified h email' organizationID' invite password s)"

definition createOrganization ::
  "(nat \<Rightarrow> 8 word) \<Rightarrow> string \<Rightarrow> string \<Rightarrow> world \<Rightarrow> (error + bool) \<times> world" where
  "createOrganization rnd adminID name' s =
     (let ident = name' @ ''-'' @ toString_hex (randomBytes rnd 6) in
      if user_findUnique_id s adminID = None then (Inl (PrismaError ''P2025''), s)
      else
        let g = \<lparr>organization.id = fresh_id (map organization.id (organizations s)),
                 name = name', identifier' = ident\<rparr>;
            m = \<lparr>organizationUser.id = fresh_id (map organizationUser.id (organizationUsers s)),
                 userID = adminID, organizationID = organization.id g, isAdmin = True\<rparr>
        in (Inr True,
            s\<lparr>organizations := organizations s @ [g],
              organizationUsers := organizationUsers s @ [m]\<rparr>))"

definition assignRole :: "string \<Rightarrow> string \<Rightarrow> string \<Rightarrow> world \<Rightarrow> (error + bool) \<times> world" where
  "assignRole userID' organizationID' roleName s =
     (case organizationUser_findFirst s organizationID' userID' of
        None \<Rightarrow> (Inl (Error ''user not present in organization''), s)
      | Some user \<Rightarrow>
          (Inr True,
           s\<lparr>roleLabels := roleLabels s @
               [\<lparr>role.name = roleName, organizationUserID = organizationUser.id user\<rparr>]\<rparr>))"

definition deleteRole :: "string \<Rightarrow> string \<Rightarrow> string \<Rightarrow> world \<Rightarrow> (error + bool) \<times> world" where
  "deleteRole userID' organizationID' roleName s =
     (case organizationUser_findFirst s organizationID' userID' of
        None \<Rightarrow> (Inl (Error ''user not present in organization''), s)
      | Some user \<Rightarrow>
          (Inr True,
           s\<lparr>roleLabels :=
               filter (\<lambda>r. \<not> (role.name r = roleName
                               \<and> organizationUserID r = organizationUser.id user))
                 (roleLabels s)\<rparr>))"

definition leaveOrganization :: "string \<Rightarrow> string \<Rightarrow> world \<Rightarrow> (error + bool) \<times> world" where
  "leaveOrganization userID' organizationID' s =
     (case organizationUser_findFirst s organizationID' userID' of
        None \<Rightarrow> (Inl (Error ''you are not part of this organization''), s)
      | Some user \<Rightarrow>
          if isAdmin user
               \<and> length (organizationUser_findMany_admins s organizationID') = 1
          then (Inl (Error ''admin cannot leave organization''), s)
          else (Inr True, organizationUser_delete (organizationUser.id user) s))"

definition deleteOrganization :: "string \<Rightarrow> world \<Rightarrow> (error + bool) \<times> world" where
  "deleteOrganization organizationID' s =
     (if organization_findUnique s organizationID' = None
      then (Inl (PrismaError ''P2025''), s)
      else (Inr True, organization_delete organizationID' s))"

text \<open>
  What \<open>fetchOrganizationUsers\<close> returns for one membership: its own columns and, under
  \<open>user\<close>, the two selected fields of the user it belongs to.
\<close>

record user_select =
  email :: string
  profileData :: jsval

record organizationUser_include = organizationUser +
  user :: user_select

fun include_user :: "world \<Rightarrow> organizationUser list \<Rightarrow> error + organizationUser_include list" where
  "include_user s [] = Inr []"
| "include_user s (m # ms) =
     (case user_findUnique_id s (userID m) of
        None \<Rightarrow> Inl (PrismaError ''inconsistent query result'')
      | Some u \<Rightarrow>
          (case include_user s ms of
             Inl e \<Rightarrow> Inl e
           | Inr rest \<Rightarrow>
               Inr (organizationUser.extend m
                      (organizationUser_include.fields
                         \<lparr>user_select.email = user.email u,
                          profileData = user.profileData u\<rparr>) # rest)))"

definition fetchOrganizationUsers ::
  "string \<Rightarrow> world \<Rightarrow> (error + organizationUser_include list) \<times> world" where
  "fetchOrganizationUsers organizationID' s =
     (include_user s (filter (\<lambda>m. organizationID m = organizationID') (organizationUsers s)), s)"

subsection \<open>Sample states\<close>

definition keys0 :: keys where
  "keys0 = \<lparr>REDIRECT_URL = ''https://app.test'', ORG_NAME = ''Zrauth'', CODE_EXPIRY = 600\<rparr>"

definition alice :: user where
  "alice = \<lparr>user.id = ''u1'', email = ''alice@a.test'',
            authData = Obj [(''password'', Str ''$2b$10$hashA'')],
            profileData = Obj [(''firstname'', Str ''Alice'')]\<rparr>"

definition bob :: user where
  "bob = \<lparr>user.id = ''u2'', email = ''bob@b.test'',
          authData = Obj [(''password'', Str ''$2b$10$hashB'')],
          profileData = Obj [(''firstname'', Str ''Bob'')]\<rparr>"

definition acme :: organization where
  "acme = \<lparr>organization.id = ''o1'', name = ''Acme'', identifier' = ''Acme-00aa11bb22cc''\<rparr>"

definition alice_at_acme :: organizationUser where
  "alice_at_acme =
     \<lparr>organizationUser.id = ''m1'', userID = ''u1'', organizationID = ''o1'', isAdmin = True\<rparr>"

text \<open>Alice is the only member, and the admin, of Acme; Bob is a user without a membership.\<close>

definition world0 :: world where
  "world0 =
     \<lparr>users = [alice, bob], organizations = [acme], organizationUsers = [alice_at_acme],
      roleLabels = [], redis = Map.empty, outbox = []\<rparr>"

text \<open>Draws that all fall on index 10 of the alphabet, and draws that count up from 0.\<close>

definition draw_ten :: "nat \<Rightarrow> nat" where
  "draw_ten i = 10"

definition draw_count :: "nat \<Rightarrow> nat" where
  "draw_count i = i"

definition rnd_bytes :: "nat \<Rightarrow> 8 word" where
  "rnd_bytes i = of_nat (37 * i + 171)"

definition hash0 :: "string \<Rightarrow> string" where
  "hash0 p = ''$2b$10$'' @ rev p"

subsection \<open>Character classes of the one-time code\<close>

definition is_decimal_digit :: "char \<Rightarrow> bool" where
  "is_decimal_digit c = (c \<in> set ''0123456789'')"

definition is_upper_case_letter :: "char \<Rightarrow> bool" where
  "is_upper_case_letter c = (c \<in> set ''ABCDEFGHIJKLMNOPQRSTUVWXYZ'')"

definition digit_or_upper :: "char \<Rightarrow> bool" where
  "digit_or_upper c = (is_decimal_digit c \<or> is_upper_case_letter c)"

text \<open>
  Bob, a user, and Carol, who is not one yet, have each been invited to Acme; the draws fell
  on index 10 every time.
\<close>

definition world_bob_invited :: world where
  "world_bob_invited =
     snd (inviteUser keys0 draw_ten ''bob@b.test'' ''Bob'' ''o1'' [''dev''] world0)"

definition world_carol_invited :: world where
  "world_carol_invited =
     snd (inviteUser keys0 draw_ten ''carol@c.test'' ''Carol'' ''o1'' [''dev'', ''ops''] world0)"

text \<open>
  States that the service does not write by itself: under Bob's key a text that is not
  JSON, an invitation whose code is the empty string, and under the key of an address that
  no user has an invitation for an existing user.
\<close>

definition world_garbled :: world where
  "world_garbled = world0\<lparr>redis := [''invite:o1-bob@b.test'' \<mapsto> (NotJson, 600)]\<rparr>"

definition world_empty_code :: world where
  "world_empty_code =
     world0\<lparr>redis := [''invite:o1-bob@b.test'' \<mapsto>
       (Json (Obj [(''code'', Str []), (''name'', Str ''Bob''), (''newuser'', Bool False),
                   (''roles'', Arr [])]), 600)]\<rparr>"

definition world_ghost :: world where
  "world_ghost =
     world0\<lparr>redis := [''invite:o1-ghost@g.test'' \<mapsto>
       (Json (Obj [(''code'', Str ''4711ZZ''), (''name'', Str ''Ghost''),
                   (''newuser'', Bool False), (''roles'', Arr [])]), 600)]\<rparr>"

subsection \<open>Rows that a creation adds\<close>

text \<open>
  The row that \<open>organizationUser_create\<close> adds to the memberships, and the row that
  \<open>user_create\<close> adds to the users, named for the statements below.
\<close>

definition new_membership :: "string \<Rightarrow> string \<Rightarrow> bool \<Rightarrow> world \<Rightarrow> organizationUser" where
  "new_membership uid oid adm s =
     \<lparr>organizationUser.id = fresh_id (map organizationUser.id (organizationUsers s)),
      userID = uid, organizationID = oid, isAdmin = adm\<rparr>"

definition new_user :: "string \<Rightarrow> jsval \<Rightarrow> jsval \<Rightarrow> world \<Rightarrow> user" where
  "new_user e a p s =
     \<lparr>user.id = fresh_id (map user.id (users s)), email = e, authData = a, profileData = p\<rparr>"

subsection \<open>Calls of the service\<close>

text \<open>
  A call of one of the nine methods, with its arguments and what it draws from its
  environment, and the state that the call leaves behind, whether it returns or throws.
\<close>

datatype call =
    AddUser string string string string "string list"
  | InviteUser keys "nat \<Rightarrow> nat" string string string "string list"
  | AcceptInvitation "string \<Rightarrow> string" string string string "string option"
  | FetchOrganizationUsers string
  | CreateOrganization "nat \<Rightarrow> 8 word" string string
  | AssignRole string string string
  | DeleteRole string string string
  | LeaveOrganization string string
  | DeleteOrganization string

fun after :: "call \<Rightarrow> world \<Rightarrow> world" where
  "after (AddUser e n p oid rs) s = snd (addUser e n p oid rs s)"
| "after (InviteUser ks draw e n oid rs) s = snd (inviteUser ks draw e n oid rs s)"
| "after (AcceptInvitation h e oid c p) s = snd (acceptInvitation h e oid c p s)"
| "after (FetchOrganizationUsers oid) s = snd (fetchOrganizationUsers oid s)"
| "after (CreateOrganization rnd uid n) s = snd (createOrganization rnd uid n s)"
| "after (AssignRole uid oid r) s = snd (assignRole uid oid r s)"
| "after (DeleteRole uid oid r) s = snd (deleteRole uid oid r s)"
| "after (LeaveOrganization uid oid) s = snd (leaveOrganization uid oid s)"
| "after (DeleteOrganization oid) s = snd (deleteOrganization oid s)"

text \<open>
  The state of the memberships that the service maintains: their identifiers are distinct,
  and every organization has an admin among its memberships.
\<close>

definition admins_kept :: "world \<Rightarrow> bool" where
  "admins_kept s =
     (distinct (map organizationUser.id (organizationUsers s))
      \<and> list_all (\<lambda>g. organizationUser_findMany_admins s (organization.id g) \<noteq> [])
           (organizations s))"

text \<open>Acme with a second admin: Bob.\<close>

definition bob_at_acme :: organizationUser where
  "bob_at_acme =
     \<lparr>organizationUser.id = ''m2'', userID = ''u2'', organizationID = ''o1'', isAdmin = True\<rparr>"

definition world_two_admins :: world where
  "world_two_admins = world0\<lparr>organizationUsers := [alice_at_acme, bob_at_acme]\<rparr>"

subsection \<open>Reading hexadecimal\<close>

text \<open>
  The inverse of the hexadecimal encoding, to state what the encoding achieves: the value of
  a digit is its position among the sixteen digits, and two digits make a byte.
\<close>

definition is_hex_digit :: "char \<Rightarrow> bool" where
  "is_hex_digit c = (c \<in> set ''0123456789abcdef'')"

definition hex_value :: "char \<Rightarrow> nat" where
  "hex_value c = length (takeWhile (\<lambda>x. x \<noteq> c) ''0123456789abcdef'')"

fun of_hex :: "string \<Rightarrow> 8 word list" where
  "of_hex (a # b # cs) = of_nat (hex_value a * 16 + hex_value b) # of_hex cs"
| "of_hex cs = []"

subsection \<open>Users up to their credential data\<close>

text \<open>Two user rows that differ at most in \<open>authData\<close>.\<close>

definition same_public :: "user \<Rightarrow> user \<Rightarrow> bool" where
  "same_public u u' =
     (user.id u = user.id u' \<and> user.email u = user.email u'
      \<and> user.profileData u = user.profileData u')"

section \<open>Properties\<close>

subsection \<open>Evaluation\<close>

lemmas query_defs =
  user_findUnique_email_def user_findUnique_id_def organization_findUnique_def
  organizationUser_findFirst_def organizationUser_findMany_admins_def

lemmas redis_defs = redis_get_def redis_set_def redis_del_def sendEmail_def

lemmas sample_defs =
  world0_def alice_def bob_def acme_def alice_at_acme_def keys0_def

subsection \<open>The invitation code\<close>

text \<open>The alphabet that the options of line 71 select: the digits and the upper-case letters.\<close>

lemma invite_alphabet:
  "allowsChars \<lparr>lowerCaseAlphabets = False, specialChars = False, digits = True,
        upperCaseAlphabets = True\<rparr> = ''0123456789ABCDEFGHIJKLMNOPQRSTUVWXYZ''"
  by (simp add: allowsChars_def otp_digits_def otp_upperCaseAlphabets_def)

lemma length_invite_code: "length (invite_code draw) = 6"
  by (simp add: invite_code_def otp_generate_def)

lemma invite_code_chars: "list_all digit_or_upper (invite_code draw)"
proof -
  let ?A = "''0123456789ABCDEFGHIJKLMNOPQRSTUVWXYZ''"
  have all: "list_all digit_or_upper ?A"
    by (simp add: digit_or_upper_def is_decimal_digit_def is_upper_case_letter_def)
  have "digit_or_upper (?A ! (draw i mod length ?A))" for i
  proof -
    have "?A ! (draw i mod length ?A) \<in> set ?A"
      by (rule nth_mem) simp
    with all show ?thesis
      unfolding list_all_iff by blast
  qed
  then show ?thesis
    unfolding invite_code_def otp_generate_def invite_alphabet list_all_iff by auto
qed

text \<open>A successful \<open>inviteUser\<close> has stored the code it generated under the invitation's key.\<close>

lemma inviteUser_stores:
  assumes "fst (inviteUser ks draw email' name' organizationID' roles s) = Inr True"
  shows "redis_get (snd (inviteUser ks draw email' name' organizationID' roles s))
           (invite_key organizationID' email') =
         Some (JSON_stringify (invite_payload (invite_code draw) name'
             (user_findUnique_email s email' = None) roles))"
  using assms
  by (auto simp: inviteUser_def Let_def redis_defs split: option.splits if_splits)

lemma invite_code_draw_ten: "invite_code draw_ten = ''AAAAAA''"
  by (simp add: invite_code_def otp_generate_def invite_alphabet draw_ten_def upt_rec)

lemma world0_bob: "user_findUnique_email world0 ''bob@b.test'' = Some bob"
  by (simp add: query_defs sample_defs)

lemma world0_bob_invite:
  "fst (inviteUser keys0 draw_ten ''bob@b.test'' ''Bob'' ''o1'' [''dev''] world0) = Inr True"
  by (simp add: inviteUser_def query_defs sample_defs Let_def)

text \<open>
  C1, as the spec has it: the code that \<open>inviteUser\<close> generates is six decimal digits.
  The options of line 71 switch the upper-case letters on beside the digits, so a draw that
  falls on index 10 of the alphabet gives the letter A: inviting Bob to Acme with such draws
  succeeds and stores the code AAAAAA, which is not made of digits.
\<close>

theorem C1_counterexample:
  "fst (inviteUser keys0 draw_ten ''bob@b.test'' ''Bob'' ''o1'' [''dev''] world0) = Inr True
   \<and> invite_code draw_ten = ''AAAAAA''
   \<and> \<not> list_all is_decimal_digit (invite_code draw_ten)"
  by (simp add: world0_bob_invite invite_code_draw_ten is_decimal_digit_def)

text \<open>
  C1, amended: every call to \<open>inviteUser\<close> that reaches the code generation (equivalently,
  that succeeds) stores, under the invitation's key, a code of exactly 6 characters, each a
  decimal digit or an upper-case letter A to Z: no lower-case letter and no symbol.
\<close>

theorem C1_invite_code_alphabet:
  assumes "fst (inviteUser ks draw email' name' organizationID' roles s) = Inr True"
  shows "redis_get (snd (inviteUser ks draw email' name' organizationID' roles s))
           (invite_key organizationID' email') =
         Some (JSON_stringify (invite_payload (invite_code draw) name'
             (user_findUnique_email s email' = None) roles))
       \<and> length (invite_code draw) = 6
       \<and> list_all digit_or_upper (invite_code draw)"
  using inviteUser_stores [OF assms] length_invite_code invite_code_chars by simp

theorem C1_invite_code_alphabet_witness:
  "redis_get (snd (inviteUser keys0 draw_ten ''bob@b.test'' ''Bob'' ''o1'' [''dev''] world0))
           ''invite:o1-bob@b.test'' =
         Some (Json (Obj [(''code'', Str ''AAAAAA''), (''name'', Str ''Bob''),
            (''newuser'', Bool False), (''roles'', Arr [Str ''dev''])]))
       \<and> length ''AAAAAA'' = 6
       \<and> list_all digit_or_upper ''AAAAAA''"
  using C1_invite_code_alphabet [OF world0_bob_invite]
  by (simp add: invite_code_draw_ten world0_bob invite_key_def JSON_stringify_def invite_payload_def)

subsection \<open>Verification of the code\<close>

lemma js_get_Str_truthy: "js_get v k = Str c \<Longrightarrow> truthy v"
  by (cases v) auto

lemma role_names_not_Error: "role_names v \<noteq> Inl (Error m)"
  by (simp add: role_names_def split: jsval.splits)

lemma organizationUser_create_not_Error:
  "organizationUser_create uid oid adm names s \<noteq> (Inl (Error m), s')"
  by (simp add: organizationUser_create_def Let_def)

lemma accept_new_user_not_verify:
  "accept_new_user h e n pw s \<noteq> (Inl (Error ''unable to verify code''), s')"
  by (simp add: accept_new_user_def bcrypt_hash_def user_create_def Let_def
      split: option.splits)

lemma acceptInvitation_cases:
  "acceptInvitation h email' organizationID' code password s =
     (case redis_get s (invite_key organizationID' email') of
        None \<Rightarrow> (Inl (Error ''unable to verify code''), s)
      | Some NotJson \<Rightarrow> (Inl SyntaxError, s)
      | Some (Json invite) \<Rightarrow>
          if js_get invite ''code'' \<noteq> Str code \<or> code = []
          then (Inl (Error ''unable to verify code''), s)
          else accept_verified h email' organizationID' invite password s)"
  by (auto simp: acceptInvitation_def split: option.splits payload.splits
      dest: js_get_Str_truthy)

lemma accept_verified_not_verify:
  "fst (accept_verified h e oid invite pw s) \<noteq> Inl (Error ''unable to verify code'')"
  by (auto simp: accept_verified_def role_names_not_Error organizationUser_create_not_Error
      accept_new_user_not_verify split: option.splits sum.splits prod.splits)

text \<open>
  C3: when a pending invitation is stored and the code supplied to \<open>acceptInvitation\<close>
  differs from the code in it, the call fails with the verification error and returns the
  state it was given: no user, no membership and no role label is created, and the invitation
  is not deleted.
\<close>

theorem C3_mismatch_no_mutation:
  assumes "redis_get s (invite_key organizationID' email') = Some (Json invite)"
      and "js_get invite ''code'' \<noteq> Str code"
  shows "acceptInvitation h email' organizationID' code password s =
           (Inl (Error ''unable to verify code''), s)"
  using assms by (simp add: acceptInvitation_cases)

lemma accept_verified_not_SyntaxError:
  "fst (accept_verified h e oid invite pw s) \<noteq> Inl SyntaxError"
  by (auto simp: accept_verified_def role_names_def organizationUser_create_def
      accept_new_user_def bcrypt_hash_def user_create_def Let_def
      split: option.splits sum.splits prod.splits jsval.splits if_splits)

lemma bob_invited_redis:
  "redis_get world_bob_invited ''invite:o1-bob@b.test'' =
     Some (Json (Obj [(''code'', Str ''AAAAAA''), (''name'', Str ''Bob''),
            (''newuser'', Bool False), (''roles'', Arr [Str ''dev''])]))"
  using inviteUser_stores [OF world0_bob_invite]
  by (simp add: world_bob_invited_def invite_code_draw_ten world0_bob invite_key_def
      JSON_stringify_def invite_payload_def)

lemma bob_invited_key: "invite_key ''o1'' ''bob@b.test'' = ''invite:o1-bob@b.test''"
  by (simp add: invite_key_def)

lemma world0_redis: "redis_get world0 k = None"
  by (simp add: redis_get_def world0_def)

theorem C3_mismatch_no_mutation_witness:
  "acceptInvitation hash0 ''bob@b.test'' ''o1'' ''AAAAA4'' None world_bob_invited =
     (Inl (Error ''unable to verify code''), world_bob_invited)"
  using C3_mismatch_no_mutation [of world_bob_invited "''o1''" "''bob@b.test''" _ "''AAAAA4''"
      hash0 None]
  by (simp add: bob_invited_key bob_invited_redis)

text \<open>
  C4, as the spec has it: \<open>acceptInvitation\<close> fails with the verification error exactly
  when the pending invitation is absent, unparseable, or its code differs from the supplied
  one.  A stored text that is not JSON makes \<^verbatim>\<open>JSON.parse\<close> throw on line 87, before
  the test of line 89, so the caller sees a \<^verbatim>\<open>SyntaxError\<close>; and an invitation whose
  code is the empty string fails the verification although the supplied code, the empty
  string, equals it.
\<close>

theorem C4_counterexample:
  "fst (acceptInvitation hash0 ''bob@b.test'' ''o1'' ''AAAAAA'' None world_garbled) =
     Inl SyntaxError
   \<and> fst (acceptInvitation hash0 ''bob@b.test'' ''o1'' [] None world_empty_code) =
     Inl (Error ''unable to verify code'')"
  by (simp add: acceptInvitation_def invite_key_def redis_get_def world_garbled_def
      world_empty_code_def)

text \<open>
  C4, amended: \<open>acceptInvitation\<close> fails with the verification error in exactly these
  situations: the pending invitation is absent; or its stored value parses and either the
  supplied code differs from the code in it (a value without a code included) or the supplied
  code is the empty string.  It fails with a \<^verbatim>\<open>SyntaxError\<close> exactly when the
  stored value does not parse.
\<close>

theorem C4_unable_to_verify_iff:
  "(fst (acceptInvitation h email' organizationID' code password s) =
      Inl (Error ''unable to verify code'')) =
   (case redis_get s (invite_key organizationID' email') of
      None \<Rightarrow> True
    | Some NotJson \<Rightarrow> False
    | Some (Json invite) \<Rightarrow> js_get invite ''code'' \<noteq> Str code \<or> code = [])
   \<and> (fst (acceptInvitation h email' organizationID' code password s) = Inl SyntaxError) =
     (redis_get s (invite_key organizationID' email') = Some NotJson)"
  using accept_verified_not_verify accept_verified_not_SyntaxError
  by (simp add: acceptInvitation_cases split: option.splits payload.splits)

theorem C4_unable_to_verify_iff_witness:
  "fst (acceptInvitation hash0 ''bob@b.test'' ''o1'' ''AAAAA4'' None world_bob_invited) =
     Inl (Error ''unable to verify code'')
   \<and> fst (acceptInvitation hash0 ''bob@b.test'' ''o1'' ''AAAAAA'' None world_bob_invited) \<noteq>
     Inl (Error ''unable to verify code'')
   \<and> fst (acceptInvitation hash0 ''bob@b.test'' ''o1'' ''AAAAAA'' None world0) =
     Inl (Error ''unable to verify code'')"
  using C4_unable_to_verify_iff [of hash0 "''bob@b.test''" "''o1''" "''AAAAA4''" None
      world_bob_invited]
    C4_unable_to_verify_iff [of hash0 "''bob@b.test''" "''o1''" "''AAAAAA''" None
      world_bob_invited]
    C4_unable_to_verify_iff [of hash0 "''bob@b.test''" "''o1''" "''AAAAAA''" None world0]
  by (simp add: bob_invited_key bob_invited_redis world0_redis)

subsection \<open>Inviting a member\<close>

lemma find_distinct_key:
  assumes "distinct (map f xs)" and "x \<in> set xs"
  shows "find (\<lambda>y. f y = f x) xs = Some x"
  using assms by (induction xs) auto

lemma find_None_iff': "(find P xs = None) = (\<forall>x\<in>set xs. \<not> P x)"
  by (induction xs) auto

text \<open>
  C6: when the user \<open>u\<close> holds a membership \<open>m\<close> in the organization \<open>g\<close>, inviting
  the email of \<open>u\<close> to \<open>g\<close> fails with the conflict error and returns the state it was
  given: nothing has been added to the outbox and nothing has been written to Redis.  Emails
  are unique among the users, as the store has them.
\<close>

theorem C6_member_not_invited:
  assumes "distinct (map user.email (users s))"
      and "u \<in> set (users s)"
      and "g \<in> set (organizations s)"
      and "m \<in> set (organizationUsers s)"
      and "userID m = user.id u" and "organizationID m = organization.id g"
  shows "inviteUser ks draw (user.email u) name' (organization.id g) roles s =
           (Inl (Error ''already part of organization''), s)"
proof -
  have u: "user_findUnique_email s (user.email u) = Some u"
    using assms(1,2) by (simp add: user_findUnique_email_def find_distinct_key)
  obtain g' where g': "organization_findUnique s (organization.id g) = Some g'"
    using assms(3) by (cases "organization_findUnique s (organization.id g)")
      (auto simp: organization_findUnique_def find_None_iff')
  then have "organization.id g' = organization.id g"
    by (auto simp: organization_findUnique_def dest: find_Some_iff [THEN iffD1])
  moreover have "organizationUser_findFirst s (organization.id g) (user.id u) \<noteq> None"
    using assms(4,5,6) by (auto simp: organizationUser_findFirst_def find_None_iff')
  ultimately show ?thesis
    using u g' by (simp add: inviteUser_def)
qed

theorem C6_member_not_invited_witness:
  "inviteUser keys0 draw_ten ''alice@a.test'' ''Alice'' ''o1'' [''dev''] world0 =
     (Inl (Error ''already part of organization''), world0)
   \<and> outbox world0 = [] \<and> redis_get world0 (invite_key ''o1'' ''alice@a.test'') = None"
  using C6_member_not_invited [of world0 alice acme alice_at_acme keys0 draw_ten "''Alice''"
      "[''dev'']"]
  by (simp add: sample_defs redis_get_def)

subsection \<open>An invitation for a user who is not there\<close>

text \<open>
  C10: when the pending invitation carries the supplied code and its \<open>newuser\<close> flag is
  false, \<open>acceptInvitation\<close> throws the \<^verbatim>\<open>TypeError\<close> of reading \<^verbatim>\<open>user.id\<close>
  from \<^verbatim>\<open>null\<close>, and leaves the state as it was, if no user has the email; and it does
  not throw that error if a user has it.  The error is none of the messages the service
  throws itself, which are all values of \<open>Error\<close>.
\<close>

theorem C10_null_user:
  assumes "redis_get s (invite_key organizationID' email') = Some (Json invite)"
      and "js_get invite ''code'' = Str code" and "code \<noteq> []"
      and "\<not> truthy (js_get invite ''newuser'')"
  shows "(user_findUnique_email s email' = None \<longrightarrow>
            acceptInvitation h email' organizationID' code password s =
              (Inl (TypeError ''id''), s))
       \<and> (user_findUnique_email s email' \<noteq> None \<longrightarrow>
            fst (acceptInvitation h email' organizationID' code password s) \<noteq>
              Inl (TypeError ''id''))"
  using assms
  by (auto simp: acceptInvitation_cases accept_verified_def role_names_def
      organizationUser_create_def Let_def split: jsval.splits if_splits)

theorem C10_null_user_witness:
  "acceptInvitation hash0 ''ghost@g.test'' ''o1'' ''4711ZZ'' None world_ghost =
     (Inl (TypeError ''id''), world_ghost)
   \<and> user_findUnique_email world_ghost ''ghost@g.test'' = None"
  using C10_null_user [of world_ghost "''o1''" "''ghost@g.test''" _ "''4711ZZ''" hash0 None]
  by (simp add: redis_get_def invite_key_def world_ghost_def user_findUnique_email_def
      sample_defs)

subsection \<open>Invitation, then acceptance\<close>

lemma role_names_strings: "role_names (Arr (map Str roles)) = Inr roles"
  by (simp add: role_names_def list_all_iff comp_def)

lemma invite_code_nonempty: "invite_code draw \<noteq> []"
  using length_invite_code [of draw] by auto

lemma find_Some_mem: "find P xs = Some x \<Longrightarrow> x \<in> set xs \<and> P x"
  by (induction xs) (auto split: if_splits)

lemma find_append:
  "find P (xs @ ys) = (case find P xs of None \<Rightarrow> find P ys | Some x \<Rightarrow> Some x)"
  by (induction xs) auto

lemma inviteUser_success_world:
  assumes "fst (inviteUser ks draw email' name' organizationID' roles s) = Inr True"
  shows "organization_findUnique s organizationID' \<noteq> None
     \<and> (\<exists>msg. snd (inviteUser ks draw email' name' organizationID' roles s) =
          s\<lparr>outbox := outbox s @ [msg],
            redis := (redis s)(invite_key organizationID' email' \<mapsto>
              (Json (invite_payload (invite_code draw) name'
                 (user_findUnique_email s email' = None) roles), CODE_EXPIRY ks))\<rparr>)"
  using assms
  by (auto simp: inviteUser_def Let_def redis_defs JSON_stringify_def
      split: option.splits if_splits)

lemma accept_verified_existing:
  assumes "\<not> truthy (js_get invite ''newuser'')"
      and "user_findUnique_email t e = Some u"
      and "role_names (js_get invite ''roles'') = Inr names"
      and "organization_findUnique t oid \<noteq> None"
  shows "accept_verified h e oid invite pw t =
     (Inr True,
      redis_del (invite_key oid e)
        (t\<lparr>organizationUsers := organizationUsers t @ [new_membership (user.id u) oid False t],
           roleLabels := roleLabels t @
             map (\<lambda>r. \<lparr>role.name = r,
                        organizationUserID =
                          organizationUser.id (new_membership (user.id u) oid False t)\<rparr>)
               names\<rparr>))"
proof -
  have "u \<in> set (users t)"
    using assms(2) by (auto simp: user_findUnique_email_def dest: find_Some_mem)
  then have "user_findUnique_id t (user.id u) \<noteq> None"
    by (auto simp: user_findUnique_id_def find_None_iff)
  with assms show ?thesis
    by (simp add: accept_verified_def organizationUser_create_def new_membership_def Let_def)
qed

lemma accept_verified_new:
  assumes "truthy (js_get invite ''newuser'')"
      and "user_findUnique_email t e = None"
      and "role_names (js_get invite ''roles'') = Inr names"
      and "organization_findUnique t oid \<noteq> None"
  shows "accept_verified h e oid invite (Some p) t =
     (let u = new_user e (Obj [(''password'', Str (h p))])
                (Obj [(''firstname'', js_get invite ''name''), (''lastname'', Str []),
                      (''status'', Str ''verified'')]) t;
          m = new_membership (user.id u) oid False t
      in (Inr True,
          redis_del (invite_key oid e)
            (t\<lparr>users := users t @ [u],
               organizationUsers := organizationUsers t @ [m],
               roleLabels := roleLabels t @
                 map (\<lambda>r. \<lparr>role.name = r, organizationUserID = organizationUser.id m\<rparr>)
                   names\<rparr>)))"
  using assms
  by (simp add: accept_verified_def accept_new_user_def bcrypt_hash_def user_create_def
      organizationUser_create_def new_membership_def new_user_def Let_def
      user_findUnique_id_def organization_findUnique_def find_append split: option.splits)


lemma acceptInvitation_absent:
  "redis_get t (invite_key oid e) = None \<Longrightarrow>
     acceptInvitation h e oid code pw t = (Inl (Error ''unable to verify code''), t)"
  by (simp add: acceptInvitation_cases)

text \<open>
  C2: after a successful \<open>inviteUser\<close>, \<open>acceptInvitation\<close> with the same email and
  organization and the generated code succeeds; it adds one membership of the organization,
  not an admin, for the user with that email, with the invited role labels, and it deletes the
  pending invitation; after that, \<open>acceptInvitation\<close> with the same code fails with the
  verification error, whatever the password, and changes nothing.  When no user has the
  email the call must carry a password, as the contract of \<open>acceptInvitation\<close> has it.
\<close>

theorem C2_invite_then_accept_once:
  assumes inv: "fst (inviteUser ks draw email' name' organizationID' roles s) = Inr True"
      and pw: "user_findUnique_email s email' = None \<longrightarrow> password \<noteq> None"
  shows "let s1 = snd (inviteUser ks draw email' name' organizationID' roles s);
             r = acceptInvitation h email' organizationID' (invite_code draw) password s1;
             s2 = snd r
         in fst r = Inr True
          \<and> redis_get s2 (invite_key organizationID' email') = None
          \<and> (\<exists>u m. user_findUnique_email s2 email' = Some u
                \<and> organizationUsers s2 = organizationUsers s @ [m]
                \<and> userID m = user.id u \<and> organizationID m = organizationID'
                \<and> \<not> isAdmin m
                \<and> roleLabels s2 = roleLabels s @
                     map (\<lambda>r. \<lparr>role.name = r, organizationUserID = organizationUser.id m\<rparr>)
                       roles)
          \<and> (\<forall>password'.
                acceptInvitation h email' organizationID' (invite_code draw) password' s2 =
                  (Inl (Error ''unable to verify code''), s2))"
proof -
  let ?key = "invite_key organizationID' email'"
  let ?new = "user_findUnique_email s email' = None"
  let ?inv = "invite_payload (invite_code draw) name' ?new roles"
  define s1 where "s1 = snd (inviteUser ks draw email' name' organizationID' roles s)"
  from inviteUser_success_world [OF inv] obtain msg where
    org: "organization_findUnique s organizationID' \<noteq> None" and
    s1: "s1 = s\<lparr>outbox := outbox s @ [msg],
                redis := (redis s)(?key \<mapsto> (Json ?inv, CODE_EXPIRY ks))\<rparr>"
    unfolding s1_def by blast
  have get1: "redis_get s1 ?key = Some (Json ?inv)"
    by (simp add: s1 redis_get_def)
  have org1: "organization_findUnique s1 organizationID' \<noteq> None"
    using org by (simp add: s1 organization_findUnique_def)
  have usr1: "user_findUnique_email s1 email' = user_findUnique_email s email'"
    by (simp add: s1 user_findUnique_email_def)
  have code: "js_get ?inv ''code'' = Str (invite_code draw)"
    and rls: "role_names (js_get ?inv ''roles'') = Inr roles"
    by (simp_all add: invite_payload_def role_names_strings)
  have step: "acceptInvitation h email' organizationID' (invite_code draw) password s1 =
      accept_verified h email' organizationID' ?inv password s1"
    by (simp add: acceptInvitation_cases get1 code invite_code_nonempty)
  define s2 where
    "s2 = snd (acceptInvitation h email' organizationID' (invite_code draw) password s1)"
  have main: "fst (acceptInvitation h email' organizationID' (invite_code draw) password s1)
        = Inr True
      \<and> redis_get s2 ?key = None
      \<and> (\<exists>u m. user_findUnique_email s2 email' = Some u
                \<and> organizationUsers s2 = organizationUsers s @ [m]
                \<and> userID m = user.id u \<and> organizationID m = organizationID'
                \<and> \<not> isAdmin m
                \<and> roleLabels s2 = roleLabels s @
                     map (\<lambda>r. \<lparr>role.name = r, organizationUserID = organizationUser.id m\<rparr>)
                       roles)"
  proof (cases ?new)
    case False
    then obtain u where u: "user_findUnique_email s1 email' = Some u"
      using usr1 by auto
    have nf: "\<not> truthy (js_get ?inv ''newuser'')"
      using False by (simp add: invite_payload_def)
    have acc: "acceptInvitation h email' organizationID' (invite_code draw) password s1 =
        accept_verified h email' organizationID' ?inv password s1"
      by (fact step)
    show ?thesis
      unfolding s2_def acc accept_verified_existing [OF nf u rls org1]
      using u
      by (simp add: redis_get_def redis_del_def s1 user_findUnique_email_def
          new_membership_def)
  next
    case True
    then obtain p where p: "password = Some p"
      using pw by auto
    have nf: "truthy (js_get ?inv ''newuser'')"
      using True by (simp add: invite_payload_def)
    have none: "user_findUnique_email s1 email' = None"
      using usr1 True by simp
    then have none': "find (\<lambda>u. user.email u = email') (users s) = None"
      by (simp add: s1 user_findUnique_email_def)
    have acc: "acceptInvitation h email' organizationID' (invite_code draw) password s1 =
        accept_verified h email' organizationID' ?inv (Some p) s1"
      using step p by simp
    show ?thesis
      unfolding s2_def acc accept_verified_new [OF nf none rls org1]
      using none'
      by (simp add: Let_def redis_get_def redis_del_def s1 user_findUnique_email_def
          new_membership_def new_user_def find_append)
  qed
  then have "redis_get s2 ?key = None"
    by simp
  then have again: "acceptInvitation h email' organizationID' (invite_code draw) password' s2
      = (Inl (Error ''unable to verify code''), s2)" for password'
    by (rule acceptInvitation_absent)
  show ?thesis
    using main again unfolding Let_def s1_def [symmetric] s2_def [symmetric] by blast
qed


lemma world0_carol_invite:
  "fst (inviteUser keys0 draw_ten ''carol@c.test'' ''Carol'' ''o1'' [''dev'', ''ops''] world0)
     = Inr True"
  by (simp add: inviteUser_def query_defs sample_defs Let_def)

theorem C2_invite_then_accept_once_witness:
  "fst (inviteUser keys0 draw_ten ''carol@c.test'' ''Carol'' ''o1'' [''dev'', ''ops''] world0)
     = Inr True
   \<and> fst (acceptInvitation hash0 ''carol@c.test'' ''o1'' ''AAAAAA'' (Some ''pw'')
          world_carol_invited) = Inr True
   \<and> fst (acceptInvitation hash0 ''carol@c.test'' ''o1'' ''AAAAAA'' (Some ''pw'')
          (snd (acceptInvitation hash0 ''carol@c.test'' ''o1'' ''AAAAAA'' (Some ''pw'')
             world_carol_invited))) = Inl (Error ''unable to verify code'')"
  using C2_invite_then_accept_once [of keys0 draw_ten "''carol@c.test''" "''Carol''" "''o1''"
      "[''dev'', ''ops'']" world0 "Some ''pw''" hash0, OF world0_carol_invite]
  by (simp add: Let_def world_carol_invited_def invite_code_draw_ten world0_carol_invite)

subsection \<open>Leaving an organization\<close>

lemma filter_key_remove1:
  assumes "distinct (map f xs)" and "m \<in> set xs"
  shows "filter (\<lambda>x. f x \<noteq> f m) xs = remove1 m xs"
  using assms
proof (induction xs)
  case Nil
  then show ?case by simp
next
  case (Cons a xs)
  show ?case
  proof (cases "a = m")
    case True
    with Cons.prems have "\<forall>x\<in>set xs. f x \<noteq> f m"
      by (auto simp: image_iff)
    with True show ?thesis
      by (simp add: filter_id_conv)
  next
    case False
    with Cons show ?thesis
      by (auto simp: image_iff)
  qed
qed

lemma admins_after_delete:
  assumes "distinct (map organizationUser.id (organizationUsers s))"
      and "m \<in> set (organizationUsers s)"
  shows "organizationUser_findMany_admins (organizationUser_delete (organizationUser.id m) s) oid
       = remove1 m (organizationUser_findMany_admins s oid)"
  using filter_key_remove1 [OF assms]
  by (simp add: organizationUser_findMany_admins_def organizationUser_delete_def filter_remove1)

lemma findFirst_mem:
  "organizationUser_findFirst s oid uid = Some m \<Longrightarrow>
     m \<in> set (organizationUsers s) \<and> organizationID m = oid \<and> userID m = uid"
  by (auto simp: organizationUser_findFirst_def dest: find_Some_mem)

lemma leaveOrganization_keeps_admin:
  assumes d: "distinct (map organizationUser.id (organizationUsers s))"
      and a: "organizationUser_findMany_admins s oid \<noteq> []"
  shows "organizationUser_findMany_admins (snd (leaveOrganization userID' organizationID' s)) oid
           \<noteq> []"
proof (cases "organizationUser_findFirst s organizationID' userID'")
  case None
  with a show ?thesis by (simp add: leaveOrganization_def)
next
  case (Some m)
  note m = findFirst_mem [OF Some]
  let ?A = "organizationUser_findMany_admins s"
  show ?thesis
  proof (cases "isAdmin m \<and> length (?A organizationID') = 1")
    case True
    with Some a show ?thesis by (simp add: leaveOrganization_def)
  next
    case False
    then have res: "snd (leaveOrganization userID' organizationID' s) =
        organizationUser_delete (organizationUser.id m) s"
      using Some by (auto simp: leaveOrganization_def)
    have after: "organizationUser_findMany_admins
        (organizationUser_delete (organizationUser.id m) s) oid = remove1 m (?A oid)"
      using d m by (simp add: admins_after_delete)
    show ?thesis
    proof (cases "m \<in> set (?A oid)")
      case False
      then show ?thesis
        using a by (simp add: res after remove1_idem)
    next
      case True
      then have "isAdmin m" and "oid = organizationID'"
        using m by (auto simp: organizationUser_findMany_admins_def)
      with \<open>\<not> (isAdmin m \<and> length (?A organizationID') = 1)\<close>
      have "length (?A oid) \<noteq> 1" by simp
      moreover have "length (?A oid) \<noteq> 0" using a by simp
      ultimately have "1 < length (?A oid)" by arith
      then have "length (remove1 m (?A oid)) \<noteq> 0"
        using True by (simp add: length_remove1)
      then show ?thesis
        by (simp add: res after)
    qed
  qed
qed

lemma fresh_id_longer: "i \<in> set used \<Longrightarrow> length i < length (fresh_id used)"
  by (induction used) (auto simp: fresh_id_def)

lemma fresh_id_fresh: "fresh_id used \<notin> set used"
  using fresh_id_longer [of "fresh_id used" used] by auto

text \<open>The invariant reads the organizations and the memberships only.\<close>

lemma admins_kept_same:
  assumes "organizations s' = organizations s"
      and "organizationUsers s' = organizationUsers s"
  shows "admins_kept s' = admins_kept s"
  using assms by (simp add: admins_kept_def organizationUser_findMany_admins_def)

text \<open>One membership more, with a new identifier, keeps it.\<close>

lemma admins_kept_add:
  assumes "admins_kept s"
      and "organizations s' = organizations s"
      and "organizationUsers s' = organizationUsers s @ [new_membership uid oid adm s]"
  shows "admins_kept s'"
  using assms fresh_id_fresh [of "map organizationUser.id (organizationUsers s)"]
  by (auto simp: admins_kept_def list_all_iff organizationUser_findMany_admins_def
      new_membership_def)

lemma admins_kept_addUser:
  assumes "admins_kept s"
  shows "admins_kept (snd (addUser e n p oid rs s))"
proof (cases "user_findUnique_email s e \<noteq> None \<or> organization_findUnique s oid = None")
  case True
  with assms show ?thesis by (auto simp: addUser_def)
next
  case False
  then show ?thesis
    by (intro admins_kept_add [OF assms, where uid = "fresh_id (map user.id (users s))"
          and oid = oid and adm = False])
      (simp_all add: addUser_def new_membership_def Let_def)
qed

lemma admins_kept_inviteUser:
  "admins_kept (snd (inviteUser ks draw e n oid rs s)) = admins_kept s"
  by (rule admins_kept_same)
    (auto simp: inviteUser_def redis_defs Let_def split: option.splits)

lemma admins_kept_accept_new_user:
  "admins_kept (snd (accept_new_user h e n p s)) = admins_kept s"
  by (rule admins_kept_same)
    (auto simp: accept_new_user_def bcrypt_hash_def user_create_def Let_def
      split: option.splits)

lemma admins_kept_organizationUser_create:
  assumes "admins_kept t"
  shows "admins_kept (snd (organizationUser_create uid oid adm names t))"
proof (cases "user_findUnique_id t uid = None \<or> organization_findUnique t oid = None")
  case True
  with assms show ?thesis by (auto simp: organizationUser_create_def)
next
  case False
  then show ?thesis
    by (intro admins_kept_add [OF assms, where uid = uid and oid = oid and adm = adm])
      (simp_all add: organizationUser_create_def new_membership_def Let_def)
qed

lemma admins_kept_redis_del: "admins_kept (redis_del k s) = admins_kept s"
  by (rule admins_kept_same) (simp_all add: redis_del_def)

lemma admins_kept_accept_verified:
  assumes "admins_kept s"
  shows "admins_kept (snd (accept_verified h e oid invite p s))"
proof -
  obtain r s1 where first:
    "(if \<not> truthy (js_get invite ''newuser'') then (Inr (user_findUnique_email s e), s)
      else accept_new_user h e (js_get invite ''name'') p s) = (r, s1)"
    by (cases "if \<not> truthy (js_get invite ''newuser'') then (Inr (user_findUnique_email s e), s)
      else accept_new_user h e (js_get invite ''name'') p s")
  then have "s1 = s \<or> s1 = snd (accept_new_user h e (js_get invite ''name'') p s)"
    by (auto split: if_splits)
  then have k1: "admins_kept s1"
    using assms admins_kept_accept_new_user by auto
  have "admins_kept (snd (organizationUser_create uid oid False names s1))" for uid names
    using k1 by (rule admins_kept_organizationUser_create)
  then have k2: "organizationUser_create uid oid False names s1 = (r', s2) \<Longrightarrow> admins_kept s2"
    for uid names r' s2
    by (metis snd_conv)
  show ?thesis
    unfolding accept_verified_def first
    using k1 k2
    by (auto simp: admins_kept_redis_del split: sum.splits option.splits prod.splits)
qed

lemma admins_kept_acceptInvitation:
  "admins_kept s \<Longrightarrow> admins_kept (snd (acceptInvitation h e oid c p s))"
  using admins_kept_accept_verified
  by (simp add: acceptInvitation_cases split: option.splits payload.splits)

lemma admins_kept_createOrganization:
  assumes "admins_kept s"
  shows "admins_kept (snd (createOrganization rnd uid n s))"
  using assms fresh_id_fresh [of "map organizationUser.id (organizationUsers s)"]
  by (auto simp: createOrganization_def admins_kept_def list_all_iff
      organizationUser_findMany_admins_def Let_def)

lemma admins_kept_assignRole: "admins_kept (snd (assignRole uid oid r s)) = admins_kept s"
  by (rule admins_kept_same) (auto simp: assignRole_def split: option.splits)

lemma admins_kept_deleteRole: "admins_kept (snd (deleteRole uid oid r s)) = admins_kept s"
  by (rule admins_kept_same) (auto simp: deleteRole_def split: option.splits)

lemma organizations_leaveOrganization:
  "organizations (snd (leaveOrganization uid oid s)) = organizations s"
  by (simp add: leaveOrganization_def organizationUser_delete_def split: option.splits)

lemma distinct_leaveOrganization:
  "distinct (map organizationUser.id (organizationUsers s)) \<Longrightarrow>
   distinct (map organizationUser.id (organizationUsers (snd (leaveOrganization uid oid s))))"
  by (simp add: leaveOrganization_def organizationUser_delete_def distinct_map_filter
      split: option.splits)

lemma admins_kept_leaveOrganization:
  "admins_kept s \<Longrightarrow> admins_kept (snd (leaveOrganization uid oid s))"
  using leaveOrganization_keeps_admin [of s _ uid oid] distinct_leaveOrganization [of s uid oid]
  by (simp add: admins_kept_def list_all_iff organizations_leaveOrganization)

lemma admins_kept_deleteOrganization:
  assumes "admins_kept s"
  shows "admins_kept (snd (deleteOrganization oid s))"
proof (cases "organization_findUnique s oid = None")
  case True
  with assms show ?thesis by (simp add: deleteOrganization_def)
next
  case False
  have "filter (\<lambda>m. isAdmin m \<and> organizationID m = i)
          (filter (\<lambda>m. organizationID m \<noteq> oid) (organizationUsers s)) =
        filter (\<lambda>m. isAdmin m \<and> organizationID m = i) (organizationUsers s)"
    if "i \<noteq> oid" for i
    using that by (auto intro: filter_cong)
  with assms False show ?thesis
    by (auto simp: deleteOrganization_def organization_delete_def admins_kept_def list_all_iff
        organizationUser_findMany_admins_def Let_def distinct_map_filter)
qed

lemma admins_kept_after: "admins_kept s \<Longrightarrow> admins_kept (after c s)"
proof (cases c)
  case (FetchOrganizationUsers oid)
  then show "admins_kept s \<Longrightarrow> ?thesis"
    by (simp add: fetchOrganizationUsers_def)
qed (simp_all add: admins_kept_addUser admins_kept_inviteUser admins_kept_acceptInvitation
    admins_kept_createOrganization admins_kept_assignRole admins_kept_deleteRole
    admins_kept_leaveOrganization admins_kept_deleteOrganization)

text \<open>
  C5: when the membership that \<open>leaveOrganization\<close> finds for the user is an admin one,
  the call fails with the admin error, and changes nothing, if the organization has exactly
  one admin membership, and it deletes that membership if the organization has more than one.
  Hence, with distinct membership identifiers, an organization that has an admin membership
  has one after any call of \<open>leaveOrganization\<close>; and the state in which every organization
  has an admin membership is kept by every call of the service.
\<close>

theorem C5_last_admin_cannot_leave:
  "(\<forall>m. organizationUser_findFirst s organizationID' userID' = Some m \<and> isAdmin m \<longrightarrow>
      (length (organizationUser_findMany_admins s organizationID') = 1 \<longrightarrow>
         leaveOrganization userID' organizationID' s =
           (Inl (Error ''admin cannot leave organization''), s))
    \<and> (1 < length (organizationUser_findMany_admins s organizationID') \<longrightarrow>
         leaveOrganization userID' organizationID' s =
           (Inr True, organizationUser_delete (organizationUser.id m) s)
         \<and> m \<notin> set (organizationUsers (organizationUser_delete (organizationUser.id m) s))))
   \<and> (\<forall>oid. distinct (map organizationUser.id (organizationUsers s))
         \<and> organizationUser_findMany_admins s oid \<noteq> [] \<longrightarrow>
         organizationUser_findMany_admins (snd (leaveOrganization userID' organizationID' s)) oid
           \<noteq> [])
   \<and> (admins_kept s \<longrightarrow> admins_kept (after c s))"
  using leaveOrganization_keeps_admin admins_kept_after
  by (auto simp: leaveOrganization_def organizationUser_delete_def)

lemma world0_admins_kept: "admins_kept world0"
  by (simp add: admins_kept_def organizationUser_findMany_admins_def sample_defs)

theorem C5_last_admin_cannot_leave_witness:
  "leaveOrganization ''u1'' ''o1'' world0 =
     (Inl (Error ''admin cannot leave organization''), world0)
   \<and> leaveOrganization ''u1'' ''o1'' world_two_admins =
     (Inr True, world0\<lparr>organizationUsers := [bob_at_acme]\<rparr>)
   \<and> organizationUser_findMany_admins (world0\<lparr>organizationUsers := [bob_at_acme]\<rparr>) ''o1''
       = [bob_at_acme]
   \<and> admins_kept (after (LeaveOrganization ''u1'' ''o1'') world0)"
  using C5_last_admin_cannot_leave [of world0 "''o1''" "''u1''" "LeaveOrganization ''u1'' ''o1''"]
    C5_last_admin_cannot_leave [of world_two_admins "''o1''" "''u1''" "LeaveOrganization ''u1'' ''o1''"]
    world0_admins_kept
  by (simp add: query_defs organizationUser_delete_def world_two_admins_def bob_at_acme_def
      sample_defs)

subsection \<open>Creating an organization\<close>

lemma hex_digits_all:
  "\<forall>d\<in>set [0..<16]. hex_value (hex_digit d) = d \<and> is_hex_digit (hex_digit d)"
  by (simp add: upt_rec hex_value_def hex_digit_def is_hex_digit_def)

lemma hex_digit_value: "d < 16 \<Longrightarrow> hex_value (hex_digit d) = d"
  using hex_digits_all by simp

lemma hex_digit_is_hex: "d < 16 \<Longrightarrow> is_hex_digit (hex_digit d)"
  using hex_digits_all by simp

lemma unat_byte_div: "unat (b :: 8 word) div 16 < 16"
proof -
  have "unat b < 256"
    using unsigned_less [of b, where 'a = nat] by simp
  then show ?thesis by simp
qed

lemma of_hex_hex_byte: "of_hex (hex_byte b @ cs) = b # of_hex cs"
  by (simp add: hex_byte_def hex_digit_value unat_byte_div)

lemma of_hex_toString_hex: "of_hex (toString_hex bs) = bs"
  by (induction bs) (simp_all add: toString_hex_def of_hex_hex_byte)

lemma length_toString_hex: "length (toString_hex bs) = 2 * length bs"
  by (induction bs) (simp_all add: toString_hex_def hex_byte_def)

lemma toString_hex_digits: "list_all is_hex_digit (toString_hex bs)"
  by (induction bs)
    (simp_all add: toString_hex_def hex_byte_def hex_digit_is_hex unat_byte_div)

lemma length_randomBytes: "length (randomBytes rnd n) = n"
  by (simp add: randomBytes_def)


text \<open>
  C8: for an existing user \<open>adminID\<close>, \<open>createOrganization\<close> succeeds and changes the
  state by exactly one new organization and one new membership.  The organization has the
  given name, and its identifier is the name, a hyphen and the hexadecimal encoding of the
  6 random bytes: 12 lower-case hexadecimal digits that read back as those bytes.  The
  membership links \<open>adminID\<close> to the new organization and is an admin one.
\<close>

theorem C8_createOrganization:
  assumes "user_findUnique_id s adminID \<noteq> None"
  shows "\<exists>g m.
      createOrganization rnd adminID name' s =
        (Inr True,
         s\<lparr>organizations := organizations s @ [g],
           organizationUsers := organizationUsers s @ [m]\<rparr>)
    \<and> organization.id g \<notin> organization.id ` set (organizations s)
    \<and> organization.name g = name'
    \<and> identifier' g = name' @ ''-'' @ toString_hex (randomBytes rnd 6)
    \<and> length (randomBytes rnd 6) = 6
    \<and> length (toString_hex (randomBytes rnd 6)) = 12
    \<and> list_all is_hex_digit (toString_hex (randomBytes rnd 6))
    \<and> of_hex (toString_hex (randomBytes rnd 6)) = randomBytes rnd 6
    \<and> organizationUser.id m \<notin> organizationUser.id ` set (organizationUsers s)
    \<and> userID m = adminID \<and> organizationID m = organization.id g \<and> isAdmin m"
proof -
  let ?g = "\<lparr>organization.id = fresh_id (map organization.id (organizations s)),
             name = name', identifier' = name' @ ''-'' @ toString_hex (randomBytes rnd 6)\<rparr>"
  let ?m = "\<lparr>organizationUser.id = fresh_id (map organizationUser.id (organizationUsers s)),
             userID = adminID, organizationID = organization.id ?g, isAdmin = True\<rparr>"
  have "createOrganization rnd adminID name' s =
        (Inr True,
         s\<lparr>organizations := organizations s @ [?g],
           organizationUsers := organizationUsers s @ [?m]\<rparr>)"
    using assms by (simp add: createOrganization_def Let_def)
  moreover have "organization.id ?g \<notin> organization.id ` set (organizations s)"
    using fresh_id_fresh [of "map organization.id (organizations s)"] by simp
  moreover have "organizationUser.id ?m \<notin> organizationUser.id ` set (organizationUsers s)"
    using fresh_id_fresh [of "map organizationUser.id (organizationUsers s)"] by simp
  moreover have "length (toString_hex (randomBytes rnd 6)) = 12"
    by (simp add: length_toString_hex length_randomBytes)
  ultimately show ?thesis
    using toString_hex_digits [of "randomBytes rnd 6"]
      of_hex_toString_hex [of "randomBytes rnd 6"] length_randomBytes [of rnd 6]
    by (intro exI [of _ ?g] exI [of _ ?m]) simp
qed

lemma rnd_bytes_hex: "toString_hex (randomBytes rnd_bytes 6) = ''abd0f51a3f64''"
  by (simp add: toString_hex_def randomBytes_def rnd_bytes_def hex_byte_def hex_digit_def
      upt_rec)

theorem C8_createOrganization_witness:
  "createOrganization rnd_bytes ''u2'' ''Acme'' world0 =
     (Inr True,
      world0\<lparr>organizations := [acme,
          \<lparr>organization.id = ''000'', name = ''Acme'', identifier' = ''Acme-abd0f51a3f64''\<rparr>],
        organizationUsers := [alice_at_acme,
          \<lparr>organizationUser.id = ''000'', userID = ''u2'', organizationID = ''000'',
           isAdmin = True\<rparr>]\<rparr>)"
proof -
  have "user_findUnique_id world0 ''u2'' \<noteq> None"
    by (simp add: query_defs sample_defs)
  from C8_createOrganization [OF this, of rnd_bytes "''Acme''"]
  obtain g m where
    "createOrganization rnd_bytes ''u2'' ''Acme'' world0 =
        (Inr True,
         world0\<lparr>organizations := organizations world0 @ [g],
           organizationUsers := organizationUsers world0 @ [m]\<rparr>)"
    by blast
  then show ?thesis
    by (simp add: createOrganization_def query_defs rnd_bytes_hex fresh_id_def Let_def
        sample_defs)
qed

subsection \<open>Credential data\<close>

lemma addUser_stores_password_as_given:
  assumes "fst (addUser email' name' password organizationID' roles s) = Inr m"
  shows "users (snd (addUser email' name' password organizationID' roles s)) =
           users s @ [new_user email' (Obj [(''password'', Str password)])
                        (Obj [(''firstname'', Str name')]) s]"
  using assms by (auto simp: addUser_def new_user_def Let_def split: if_splits)

lemma accept_new_user_stores_hash:
  assumes "accept_new_user h email' invite_name password s = (Inr r, s')"
  shows "\<exists>p. password = Some p
       \<and> users s' = users s @ [new_user email' (Obj [(''password'', Str (h p))])
            (Obj [(''firstname'', invite_name), (''lastname'', Str []),
                  (''status'', Str ''verified'')]) s]"
  using assms
  by (auto simp: accept_new_user_def bcrypt_hash_def user_create_def new_user_def Let_def
      split: option.splits if_splits)

text \<open>
  Accepting Carol's invitation with the password hunter2 stores the hash of the password.
\<close>

lemma acceptInvitation_stores_hash_example:
  "users (snd (acceptInvitation hash0 ''carol@c.test'' ''o1'' ''AAAAAA'' (Some ''hunter2'')
        world_carol_invited)) =
     [alice, bob,
      \<lparr>user.id = ''000'', email = ''carol@c.test'',
       authData = Obj [(''password'', Str (hash0 ''hunter2''))],
       profileData = Obj [(''firstname'', Str ''Carol''), (''lastname'', Str []),
                          (''status'', Str ''verified'')]\<rparr>]"
  by (simp add: acceptInvitation_def accept_verified_def accept_new_user_def
      bcrypt_hash_def user_create_def organizationUser_create_def role_names_def
      world_carol_invited_def inviteUser_def invite_code_draw_ten invite_payload_def
      JSON_stringify_def invite_key_def
      query_defs redis_defs fresh_id_def Let_def sample_defs)

text \<open>
  C7: every user that the service creates has a hashed password as its credential data.
  \<open>addUser\<close> stores the password it is given: adding Dan to Acme with the password
  hunter2 succeeds and leaves that very string in \<open>authData\<close>.
\<close>

theorem C7_addUser_stores_plaintext:
  "fst (addUser ''dan@d.test'' ''Dan'' ''hunter2'' ''o1'' [''dev''] world0) =
     Inr \<lparr>organizationUser.id = ''000'', userID = ''000'', organizationID = ''o1'',
          isAdmin = False\<rparr>
   \<and> users (snd (addUser ''dan@d.test'' ''Dan'' ''hunter2'' ''o1'' [''dev''] world0)) =
     [alice, bob,
      \<lparr>user.id = ''000'', email = ''dan@d.test'',
       authData = Obj [(''password'', Str ''hunter2'')],
       profileData = Obj [(''firstname'', Str ''Dan'')]\<rparr>]"
  by (simp add: addUser_def query_defs fresh_id_def Let_def sample_defs)

subsection \<open>The projection of the users\<close>

lemma find_id_same_public:
  assumes "list_all2 same_public xs ys"
  shows "rel_option same_public (find (\<lambda>u. user.id u = i) xs) (find (\<lambda>u. user.id u = i) ys)"
  using assms by (induction rule: list_all2_induct) (auto simp: same_public_def)

lemma include_user_same_public:
  assumes "list_all2 same_public (users s) (users s')"
  shows "include_user s' ms = include_user s ms"
proof (induction ms)
  case Nil
  show ?case by simp
next
  case (Cons m ms)
  have "rel_option same_public (user_findUnique_id s (userID m))
          (user_findUnique_id s' (userID m))"
    unfolding user_findUnique_id_def using assms by (rule find_id_same_public)
  then show ?case
    by (cases rule: option.rel_cases)
      (simp_all add: Cons.IH same_public_def split: sum.splits)
qed

lemma include_user_rows:
  "include_user s ms = Inr rows \<Longrightarrow>
     list_all2 (\<lambda>r m. organizationUser.truncate r = m
         \<and> (\<exists>u. user_findUnique_id s (userID m) = Some u
              \<and> user r = \<lparr>user_select.email = user.email u,
                            profileData = user.profileData u\<rparr>)) rows ms"
proof (induction ms arbitrary: rows)
  case Nil
  then show ?case by simp
next
  case (Cons m ms)
  then show ?case
    by (auto simp: organizationUser.truncate_def organizationUser.extend_def
        organizationUser_include.fields_def split: option.splits sum.splits)
qed

text \<open>
  C9: two states with the same memberships whose users differ at most in their credential
  data give the same result of \<open>fetchOrganizationUsers\<close>; a result lists the memberships of
  the organization in order, each with the email and the profile data of its user and nothing
  else of the user; and the call changes nothing.
\<close>

theorem C9_no_credentials:
  "(list_all2 same_public (users s) (users s') \<and> organizationUsers s' = organizationUsers s
      \<longrightarrow> fst (fetchOrganizationUsers oid s') = fst (fetchOrganizationUsers oid s))
   \<and> (\<forall>rows. fst (fetchOrganizationUsers oid s) = Inr rows \<longrightarrow>
        list_all2 (\<lambda>r m. organizationUser.truncate r = m
           \<and> (\<exists>u. user_findUnique_id s (userID m) = Some u
                \<and> user r = \<lparr>user_select.email = user.email u,
                              profileData = user.profileData u\<rparr>))
          rows (filter (\<lambda>m. organizationID m = oid) (organizationUsers s)))
   \<and> snd (fetchOrganizationUsers oid s) = s"
  by (simp add: fetchOrganizationUsers_def include_user_same_public include_user_rows)

theorem C9_no_credentials_witness:
  "fst (fetchOrganizationUsers ''o1''
         (world0\<lparr>users := [alice\<lparr>authData := Null\<rparr>, bob\<lparr>authData := Str ''x''\<rparr>]\<rparr>)) =
     Inr [\<lparr>organizationUser.id = ''m1'', userID = ''u1'', organizationID = ''o1'',
           isAdmin = True,
           user = \<lparr>user_select.email = ''alice@a.test'',
                    profileData = Obj [(''firstname'', Str ''Alice'')]\<rparr>\<rparr>]
   \<and> fst (fetchOrganizationUsers ''o1'' world0) =
     Inr [\<lparr>organizationUser.id = ''m1'', userID = ''u1'', organizationID = ''o1'',
           isAdmin = True,
           user = \<lparr>user_select.email = ''alice@a.test'',
                    profileData = Obj [(''firstname'', Str ''Alice'')]\<rparr>\<rparr>]"
proof -
  have w: "fst (fetchOrganizationUsers ''o1'' world0) =
     Inr [\<lparr>organizationUser.id = ''m1'', userID = ''u1'', organizationID = ''o1'',
           isAdmin = True,
           user = \<lparr>user_select.email = ''alice@a.test'',
                    profileData = Obj [(''firstname'', Str ''Alice'')]\<rparr>\<rparr>]"
    by (simp add: fetchOrganizationUsers_def query_defs sample_defs
        organizationUser.extend_def organizationUser_include.fields_def)
  have "list_all2 same_public (users world0)
          (users (world0\<lparr>users := [alice\<lparr>authData := Null\<rparr>, bob\<lparr>authData := Str ''x''\<rparr>]\<rparr>))"
    by (simp add: world0_def same_public_def)
  with C9_no_credentials [where oid = "''o1''" and s = world0
      and s' = "world0\<lparr>users := [alice\<lparr>authData := Null\<rparr>, bob\<lparr>authData := Str ''x''\<rparr>]\<rparr>"] w
  show ?thesis
    by simp
qed

end
